theory Spec2Isabelle
  imports Main "HOL-Library.Sublist"
begin

section \<open>Data model\<close>

text \<open>
  The embedding follows \<^verbatim>\<open>notion_sync/database.py\<close>, \<^verbatim>\<open>notion_sync/notion_client.py\<close>,
  \<^verbatim>\<open>notion_sync/git_ops.py\<close> and \<^verbatim>\<open>notion_sync/sync.py\<close>. A Python \<^verbatim>\<open>str\<close> is a list of
  characters, one \<^typ>\<open>char\<close> per code point.

  A \<^verbatim>\<open>datetime\<close> is the reading of a wall clock, in microseconds since the epoch, with
  or without a time zone: \<open>tz = None\<close> is a naive value, as \<^verbatim>\<open>datetime.utcnow()\<close> returns
  it, and \<open>tz = Some m\<close> an aware one with the UTC offset of \<open>m\<close> minutes, as
  \<^verbatim>\<open>_parse_page\<close> builds it from the \<^verbatim>\<open>last_edited_time\<close> of the API (\<^verbatim>\<open>Z\<close> replaced by
  \<^verbatim>\<open>+00:00\<close>, so \<open>m = 0\<close>). Without a \<^verbatim>\<open>last_edited_time\<close>, \<^verbatim>\<open>_parse_page\<close> takes
  \<^verbatim>\<open>datetime.utcnow()\<close>, a naive value.
\<close>

type_synonym timestamp = int

record datetime =
  wall :: timestamp
  tz :: "int option"

text \<open>
  The exceptions: \<^verbatim>\<open>NotionClientError\<close> from \<^verbatim>\<open>NotionClient._request\<close>,
  \<^verbatim>\<open>GitOperationsError\<close> from \<^verbatim>\<open>GitOperations._run\<close>, and the three that Python raises
  on the values this code passes around. \<open>str_exn\<close> is Python's \<^verbatim>\<open>str(e)\<close>.
\<close>

datatype exn =
  NotionClientError string
| GitOperationsError string
| ValueError string
| TypeError string
| AttributeError string

fun str_exn :: "exn \<Rightarrow> string" where
  "str_exn (NotionClientError m) = m"
| "str_exn (GitOperationsError m) = m"
| "str_exn (ValueError m) = m"
| "str_exn (TypeError m) = m"
| "str_exn (AttributeError m) = m"

definition quote :: string where
  "quote = [CHR 0x27]"

text \<open>
  Python's \<^verbatim>\<open>a > b\<close> on two \<^verbatim>\<open>datetime\<close> values: two naive values compare by their wall
  clock, two aware ones by their instant, and a naive with an aware one raises
  \<^verbatim>\<open>TypeError\<close>.
\<close>

definition instant :: "datetime \<Rightarrow> timestamp" where
  "instant d = (case tz d of None \<Rightarrow> wall d | Some m \<Rightarrow> wall d - m * 60000000)"

definition dt_greater :: "datetime \<Rightarrow> datetime \<Rightarrow> exn + bool" where
  "dt_greater a b =
     (case (tz a, tz b) of
        (None, None) \<Rightarrow> Inr (wall a > wall b)
      | (Some _, Some _) \<Rightarrow> Inr (instant a > instant b)
      | _ \<Rightarrow> Inl (TypeError (''can'' @ quote @ ''t compare offset-naive and offset-aware datetimes'')))"

text \<open>
  A \<^verbatim>\<open>datetime\<close> bound to a \<^verbatim>\<open>TIMESTAMP\<close> column is written as \<^verbatim>\<open>isoformat(" ")\<close> and,
  since the connection is opened with \<^verbatim>\<open>PARSE_DECLTYPES\<close>, read back by the converter
  of \<^verbatim>\<open>sqlite3\<close>. That converter splits the time at \<^verbatim>\<open>.\<close> and then at \<^verbatim>\<open>:\<close>:
  a naive value comes back as it was; an aware value with microseconds comes back
  naive, its offset lost behind the six digits; an aware value without microseconds
  (\<^verbatim>\<open>09:00:00+00:00\<close>) has seconds and offset hours in one field, on which \<^verbatim>\<open>int\<close>
  raises \<^verbatim>\<open>ValueError\<close>.
\<close>

definition two_digits :: "nat \<Rightarrow> string" where
  "two_digits n = [''0123456789'' ! ((n div 10) mod 10), ''0123456789'' ! (n mod 10)]"

definition convert_timestamp :: "datetime \<Rightarrow> exn + datetime" where
  "convert_timestamp d =
     (case tz d of
        None \<Rightarrow> Inr d
      | Some m \<Rightarrow>
          if wall d mod 1000000 = 0
          then Inl (ValueError
                 (''invalid literal for int() with base 10: b'' @ quote @
                  two_digits (nat ((wall d div 1000000) mod 60)) @
                  (if m < 0 then ''-'' else ''+'') @
                  two_digits (nat (\<bar>m\<bar> div 60)) @ quote))
          else Inr (d\<lparr>tz := None\<rparr>))"

text \<open>\<^verbatim>\<open>database.PageRecord\<close>: one row of the \<^verbatim>\<open>pages\<close> table.\<close>

record PageRecord =
  notion_id :: string
  title :: string
  parent_id :: "string option"
  content_hash :: string
  last_edited :: datetime
  last_synced :: datetime
  status :: string

text \<open>
  \<^verbatim>\<open>notion_client.NotionPage\<close>. Its fields carry the prefix \<open>page_\<close>, since
  \<^verbatim>\<open>title\<close>, \<^verbatim>\<open>parent_id\<close> and \<^verbatim>\<open>last_edited\<close> are fields of \<^typ>\<open>PageRecord\<close> too
  and \<^verbatim>\<open>id\<close> is the identity function of HOL. The \<^verbatim>\<open>properties\<close> dictionary is never
  read by the orchestrator and is left out.
\<close>

record NotionPage =
  page_id :: string
  page_title :: string
  page_parent_id :: "string option"
  page_content :: string
  page_last_edited :: datetime
  page_url :: string

text \<open>
  One row of the \<^verbatim>\<open>sync_log\<close> table. \<^verbatim>\<open>sync_time\<close> is the text SQLite writes for
  \<^verbatim>\<open>CURRENT_TIMESTAMP\<close>, a UTC wall clock in whole seconds; it is kept as that reading.
\<close>

record SyncLogEntry =
  log_id :: nat
  sync_time :: timestamp
  log_pages_synced :: nat
  log_direction :: string
  log_status :: string
  log_message :: string

text \<open>\<^verbatim>\<open>sync.SyncResult\<close>.\<close>

record SyncResult =
  success :: bool
  direction :: string
  pages_synced :: nat
  pages_skipped :: nat
  errors :: "string list"
  commit_hash :: "string option"
  timestamp :: datetime

text \<open>
  The dictionary \<^verbatim>\<open>{"synced": 0, "skipped": 0, "errors": []}\<close> that
  \<^verbatim>\<open>_pull_from_notion\<close> builds and returns.
\<close>

record pull_result =
  synced :: nat
  skipped :: nat
  pull_errors :: "string list"

section \<open>The collaborators\<close>

text \<open>
  Library functions the code calls and whose code is not part of the repository:
  \<^verbatim>\<open>hashlib.sha256(...).hexdigest()\<close> behind \<^verbatim>\<open>SyncDatabase.compute_hash\<close>,
  \<^verbatim>\<open>datetime.isoformat\<close>, and the clock. \<open>utcnow k\<close> is what the clock shows when it is
  read for the \<open>k\<close>-th time; the state counts the readings.
\<close>

record env =
  compute_hash :: "string \<Rightarrow> string"
  isoformat :: "datetime \<Rightarrow> string"
  utcnow :: "nat \<Rightarrow> timestamp"

text \<open>
  The remote source during one run: the pages of the Notion database as \<^verbatim>\<open>_parse_page\<close>
  returns them, the message of the \<^verbatim>\<open>NotionClientError\<close> with which the database query
  fails (if it does), and for each page identifier either the rendered content or the
  message of the \<^verbatim>\<open>NotionClientError\<close> with which fetching its blocks fails.
\<close>

record remote =
  remote_pages :: "NotionPage list"
  query_error :: "string option"
  blocks_of :: "string \<Rightarrow> string + string"

text \<open>
  What the git commands of one run answer: \<^verbatim>\<open>has_changes\<close>, \<^verbatim>\<open>commit_sync\<close> (the hash of
  HEAD after the commit) and \<^verbatim>\<open>push\<close>; \<open>Inl\<close> and \<open>Some\<close> carry the message of the
  \<^verbatim>\<open>GitOperationsError\<close> of a failing command.
\<close>

record git =
  changes :: "string + bool"
  commit_result :: "string + string"
  push_error :: "string option"

text \<open>
  The state a run works on: the two tables of \<^verbatim>\<open>memory.db\<close> (a row of \<^verbatim>\<open>pages\<close> holds
  the values as they were bound), the files of the \<^verbatim>\<open>pages\<close> directory by name, HEAD of
  the repository, and the number of clock readings so far.
\<close>

record sync_state =
  db_pages :: "string \<rightharpoonup> PageRecord"
  sync_log :: "SyncLogEntry list"
  files :: "string \<rightharpoonup> string"
  git_head :: "string option"
  ticks :: nat

definition now_utc :: "env \<Rightarrow> sync_state \<Rightarrow> datetime \<times> sync_state" where
  "now_utc ev st = (\<lparr>wall = utcnow ev (ticks st), tz = None\<rparr>, st\<lparr>ticks := Suc (ticks st)\<rparr>)"

section \<open>Record store (\<^verbatim>\<open>database.py\<close>)\<close>

text \<open>
  \<^verbatim>\<open>get_page\<close> selects the row and converts its two \<^verbatim>\<open>TIMESTAMP\<close> columns, in the
  order of the columns.
\<close>

definition get_page :: "sync_state \<Rightarrow> string \<Rightarrow> exn + PageRecord option" where
  "get_page st nid =
     (case db_pages st nid of
        None \<Rightarrow> Inr None
      | Some row \<Rightarrow>
          (case convert_timestamp (last_edited row) of
             Inl e \<Rightarrow> Inl e
           | Inr edited \<Rightarrow>
               (case convert_timestamp (last_synced row) of
                  Inl e \<Rightarrow> Inl e
                | Inr synced_at \<Rightarrow>
                    Inr (Some (row\<lparr>last_edited := edited, last_synced := synced_at\<rparr>)))))"

definition upsert_page :: "PageRecord \<Rightarrow> sync_state \<Rightarrow> sync_state" where
  "upsert_page page st = st\<lparr>db_pages := (db_pages st)(notion_id page \<mapsto> page)\<rparr>"

definition needs_sync :: "sync_state \<Rightarrow> string \<Rightarrow> datetime \<Rightarrow> string \<Rightarrow> exn + bool" where
  "needs_sync st nid edited h =
     (case get_page st nid of
        Inl e \<Rightarrow> Inl e
      | Inr None \<Rightarrow> Inr True
      | Inr (Some existing) \<Rightarrow>
          if content_hash existing \<noteq> h then Inr True
          else (case dt_greater edited (last_synced existing) of
                  Inl e \<Rightarrow> Inl e
                | Inr True \<Rightarrow> Inr True
                | Inr False \<Rightarrow> Inr False))"

text \<open>
  \<^verbatim>\<open>log_sync\<close> inserts a row; \<^verbatim>\<open>id\<close> autoincrements and \<^verbatim>\<open>sync_time\<close> defaults to
  \<^verbatim>\<open>CURRENT_TIMESTAMP\<close>, a reading of the clock in whole seconds.
\<close>

definition current_timestamp :: "timestamp \<Rightarrow> timestamp" where
  "current_timestamp t = t - t mod 1000000"

definition log_sync :: "env \<Rightarrow> nat \<Rightarrow> string \<Rightarrow> string \<Rightarrow> string \<Rightarrow> sync_state \<Rightarrow> sync_state" where
  "log_sync ev n dir stat msg st =
     (let (now, st1) = now_utc ev st
      in st1\<lparr>sync_log := sync_log st1 @
           [\<lparr>log_id = Suc (length (sync_log st1)), sync_time = current_timestamp (wall now),
             log_pages_synced = n, log_direction = dir, log_status = stat,
             log_message = msg\<rparr>]\<rparr>)"

text \<open>
  \<^verbatim>\<open>SELECT MAX(sync_time) as last_sync FROM sync_log WHERE status = 'success'\<close>. The
  aggregate has no declared type and its name no type tag, so no converter applies:
  \<^verbatim>\<open>get_last_sync_time\<close> returns the text itself, a \<^verbatim>\<open>str\<close>, or \<^verbatim>\<open>None\<close> when no row has
  the status \<^verbatim>\<open>success\<close>. \<open>Text t\<close> is the \<^verbatim>\<open>str\<close> that SQLite keeps for the time \<open>t\<close>.
\<close>

datatype since = Text timestamp | Datetime datetime

fun max_time :: "timestamp list \<Rightarrow> timestamp option" where
  "max_time [] = None"
| "max_time (t # ts) = (case max_time ts of None \<Rightarrow> Some t | Some m \<Rightarrow> Some (max t m))"

definition get_last_sync_time :: "sync_state \<Rightarrow> since option" where
  "get_last_sync_time st =
     map_option Text
       (max_time (map sync_time (filter (\<lambda>e. log_status e = ''success'') (sync_log st))))"

section \<open>Remote source (\<^verbatim>\<open>notion_client.py\<close>)\<close>

text \<open>
  \<^verbatim>\<open>get_database_pages(since)\<close>. With a \<^verbatim>\<open>since\<close> the filter is built from
  \<^verbatim>\<open>since.isoformat()\<close> before any request is made: on a \<^verbatim>\<open>str\<close> that raises
  \<^verbatim>\<open>AttributeError\<close>; on a \<^verbatim>\<open>datetime\<close> the query asks for \<^verbatim>\<open>last_edited_time after since\<close>,
  so that only pages edited after that instant come back. Without it all pages do. A
  failing request raises \<^verbatim>\<open>NotionClientError\<close>.
\<close>

definition query_database :: "remote \<Rightarrow> datetime option \<Rightarrow> exn + NotionPage list" where
  "query_database rm after =
     (case query_error rm of
        Some m \<Rightarrow> Inl (NotionClientError m)
      | None \<Rightarrow>
          (case after of
             None \<Rightarrow> Inr (remote_pages rm)
           | Some d \<Rightarrow>
               Inr (filter (\<lambda>p. instant d < instant (page_last_edited p)) (remote_pages rm))))"

definition get_database_pages :: "remote \<Rightarrow> since option \<Rightarrow> exn + NotionPage list" where
  "get_database_pages rm since =
     (case since of
        None \<Rightarrow> query_database rm None
      | Some (Text t) \<Rightarrow>
          Inl (AttributeError (quote @ ''str'' @ quote @ '' object has no attribute '' @
                               quote @ ''isoformat'' @ quote))
      | Some (Datetime d) \<Rightarrow> query_database rm (Some d))"

definition get_page_content :: "remote \<Rightarrow> string \<Rightarrow> exn + string" where
  "get_page_content rm pid =
     (case blocks_of rm pid of Inl m \<Rightarrow> Inl (NotionClientError m) | Inr c \<Rightarrow> Inr c)"

section \<open>Version control (\<^verbatim>\<open>git_ops.py\<close>)\<close>

definition has_changes :: "git \<Rightarrow> exn + bool" where
  "has_changes g = (case changes g of Inl m \<Rightarrow> Inl (GitOperationsError m) | Inr b \<Rightarrow> Inr b)"

text \<open>\<^verbatim>\<open>commit_sync\<close> returns the hash of HEAD, which the commit has moved.\<close>

definition commit_sync :: "git \<Rightarrow> sync_state \<Rightarrow> (exn + string) \<times> sync_state" where
  "commit_sync g st =
     (case commit_result g of
        Inl m \<Rightarrow> (Inl (GitOperationsError m), st)
      | Inr h \<Rightarrow> (Inr h, st\<lparr>git_head := Some h\<rparr>))"

definition push :: "git \<Rightarrow> exn + bool" where
  "push g = (case push_error g of Some m \<Rightarrow> Inl (GitOperationsError m) | None \<Rightarrow> Inr True)"

section \<open>Writing a page file (\<^verbatim>\<open>NotionSync._write_page_file\<close>)\<close>

text \<open>
  \<^verbatim>\<open>str.isalnum\<close> and \<^verbatim>\<open>str.isspace\<close> on the code points below 256: the ASCII letters
  and digits, the letters of Latin-1, the superscript digits and the fractions; the ASCII
  white space and separators, NEL and the no-break space.
\<close>

definition isalnum :: "char \<Rightarrow> bool" where
  "isalnum c =
     (let n = of_char c :: nat in
        (48 \<le> n \<and> n \<le> 57) \<or> (65 \<le> n \<and> n \<le> 90) \<or> (97 \<le> n \<and> n \<le> 122)
        \<or> n = 170 \<or> n = 178 \<or> n = 179 \<or> n = 181 \<or> n = 185 \<or> n = 186
        \<or> (188 \<le> n \<and> n \<le> 190) \<or> (192 \<le> n \<and> n \<le> 214)
        \<or> (216 \<le> n \<and> n \<le> 246) \<or> (248 \<le> n \<and> n \<le> 255))"

definition isspace :: "char \<Rightarrow> bool" where
  "isspace c =
     (let n = of_char c :: nat in
        (9 \<le> n \<and> n \<le> 13) \<or> (28 \<le> n \<and> n \<le> 32) \<or> n = 133 \<or> n = 160)"

definition strip :: "string \<Rightarrow> string" where
  "strip s = rev (dropWhile isspace (rev (dropWhile isspace s)))"

definition allowed_char :: "char \<Rightarrow> bool" where
  "allowed_char c = (isalnum c \<or> c \<in> set '' -_'')"

definition safe_title :: "string \<Rightarrow> string" where
  "safe_title t =
     (let s = take 50 (strip (filter allowed_char t))
      in if s = [] then ''untitled'' else s)"

definition page_filename :: "NotionPage \<Rightarrow> string" where
  "page_filename page = safe_title (page_title page) @ ''_'' @ take 8 (page_id page) @ ''.md''"

definition newline :: string where
  "newline = [CHR 0x0A]"

definition frontmatter :: "env \<Rightarrow> NotionPage \<Rightarrow> string" where
  "frontmatter ev page =
     ''---'' @ newline @
     ''notion_id: '' @ page_id page @ newline @
     ''title: '' @ page_title page @ newline @
     ''last_edited: '' @ isoformat ev (page_last_edited page) @ newline @
     ''url: '' @ page_url page @ newline @
     ''---'' @ newline @
     newline"

definition write_page_file :: "env \<Rightarrow> NotionPage \<Rightarrow> string \<Rightarrow> sync_state \<Rightarrow> sync_state" where
  "write_page_file ev page content st =
     st\<lparr>files := (files st)(page_filename page \<mapsto> frontmatter ev page @ content)\<rparr>"

section \<open>Pulling (\<^verbatim>\<open>NotionSync._pull_from_notion\<close>)\<close>

text \<open>
  The body of the \<^verbatim>\<open>try\<close> inside the loop, for one page. \<open>Inl e\<close> is the exception that
  leaves it; \<open>Inr True\<close> is a page written and upserted, \<open>Inr False\<close> the \<^verbatim>\<open>continue\<close> of a
  page that needs no sync.
\<close>

definition sync_page :: "env \<Rightarrow> remote \<Rightarrow> NotionPage \<Rightarrow> sync_state \<Rightarrow> (exn + bool) \<times> sync_state" where
  "sync_page ev rm page st =
     (case get_page_content rm (page_id page) of
        Inl e \<Rightarrow> (Inl e, st)
      | Inr content \<Rightarrow>
          let h = compute_hash ev content in
          (case needs_sync st (page_id page) (page_last_edited page) h of
             Inl e \<Rightarrow> (Inl e, st)
           | Inr False \<Rightarrow> (Inr False, st)
           | Inr True \<Rightarrow>
               let st1 = write_page_file ev page content st;
                   (now, st2) = now_utc ev st1;
                   record = \<lparr>notion_id = page_id page, title = page_title page,
                             parent_id = page_parent_id page, content_hash = h,
                             last_edited = page_last_edited page, last_synced = now,
                             status = ''synced''\<rparr>
               in (Inr True, upsert_page record st2)))"

text \<open>One iteration of the loop: the \<^verbatim>\<open>try\<close> with its \<^verbatim>\<open>except Exception\<close>.\<close>

definition pull_step :: "env \<Rightarrow> remote \<Rightarrow> NotionPage \<Rightarrow> pull_result \<times> sync_state \<Rightarrow> pull_result \<times> sync_state" where
  "pull_step ev rm page acc =
     (let (result, st) = acc in
      case sync_page ev rm page st of
        (Inr False, st1) \<Rightarrow> (result\<lparr>skipped := skipped result + 1\<rparr>, st1)
      | (Inr True, st1) \<Rightarrow> (result\<lparr>synced := synced result + 1\<rparr>, st1)
      | (Inl e, st1) \<Rightarrow>
          (result\<lparr>pull_errors := pull_errors result @
             [''Failed to sync '' @ page_id page @ '': '' @ str_exn e]\<rparr>, st1))"

fun pull_loop :: "env \<Rightarrow> remote \<Rightarrow> NotionPage list \<Rightarrow> pull_result \<times> sync_state \<Rightarrow> pull_result \<times> sync_state" where
  "pull_loop ev rm [] acc = acc"
| "pull_loop ev rm (page # pages) acc = pull_loop ev rm pages (pull_step ev rm page acc)"

text \<open>
  \<^verbatim>\<open>_pull_from_notion\<close> catches the \<^verbatim>\<open>NotionClientError\<close> of the listing; any other
  exception of the listing leaves the function.
\<close>

definition pull_from_notion :: "env \<Rightarrow> remote \<Rightarrow> sync_state \<Rightarrow> (exn + pull_result) \<times> sync_state" where
  "pull_from_notion ev rm st =
     (let result = \<lparr>synced = 0, skipped = 0, pull_errors = []\<rparr>;
          last_sync = get_last_sync_time st
      in case get_database_pages rm last_sync of
           Inl (NotionClientError m) \<Rightarrow>
             (Inr (result\<lparr>pull_errors := pull_errors result @ [''Failed to fetch pages: '' @ m]\<rparr>), st)
         | Inl e \<Rightarrow> (Inl e, st)
         | Inr pages \<Rightarrow> (let (r, st1) = pull_loop ev rm pages (result, st) in (Inr r, st1)))"

section \<open>A run (\<^verbatim>\<open>NotionSync.sync_now\<close>)\<close>

text \<open>\<^verbatim>\<open>"; ".join(errors)\<close>.\<close>

fun join_errors :: "string list \<Rightarrow> string" where
  "join_errors [] = []"
| "join_errors [e] = e"
| "join_errors (e # es) = e @ ''; '' @ join_errors es"

text \<open>
  The commit and push of a run: the commit hash (if a commit was made) and the errors
  after the push, or the exception that leaves the block.
\<close>

definition commit_and_push ::
  "git \<Rightarrow> bool \<Rightarrow> string list \<Rightarrow> sync_state \<Rightarrow> (exn + string option \<times> string list) \<times> sync_state" where
  "commit_and_push g do_push errs st =
     (case has_changes g of
        Inl e \<Rightarrow> (Inl e, st)
      | Inr False \<Rightarrow> (Inr (None, errs), st)
      | Inr True \<Rightarrow>
          (case commit_sync g st of
             (Inl e, st1) \<Rightarrow> (Inl e, st1)
           | (Inr h, st1) \<Rightarrow>
               if do_push then
                 (case push g of
                    Inl (GitOperationsError m) \<Rightarrow> (Inr (Some h, errs @ [''Push failed: '' @ m]), st1)
                  | Inl e \<Rightarrow> (Inl e, st1)
                  | Inr _ \<Rightarrow> (Inr (Some h, errs), st1))
               else (Inr (Some h, errs), st1)))"

text \<open>The body of the \<^verbatim>\<open>try\<close> of \<^verbatim>\<open>sync_now\<close>.\<close>

definition sync_body :: "env \<Rightarrow> remote \<Rightarrow> git \<Rightarrow> bool \<Rightarrow> sync_state \<Rightarrow> (exn + SyncResult) \<times> sync_state" where
  "sync_body ev rm g do_push st =
     (case pull_from_notion ev rm st of
        (Inl e, st1) \<Rightarrow> (Inl e, st1)
      | (Inr pr, st1) \<Rightarrow>
          let n_synced = 0 + synced pr;
              n_skipped = 0 + skipped pr
          in case commit_and_push g do_push ([] @ pull_errors pr) st1 of
               (Inl e, st2) \<Rightarrow> (Inl e, st2)
             | (Inr (ch, errs), st2) \<Rightarrow>
                 let st3 = log_sync ev n_synced ''pull''
                             (if errs = [] then ''success'' else ''partial'')
                             (if errs \<noteq> [] then join_errors errs else '''') st2;
                     (now, st4) = now_utc ev st3
                 in (Inr \<lparr>success = (length errs = 0), direction = ''pull'',
                          pages_synced = n_synced, pages_skipped = n_skipped,
                          errors = errs, commit_hash = ch, timestamp = now\<rparr>, st4))"

definition sync_now :: "env \<Rightarrow> remote \<Rightarrow> git \<Rightarrow> bool \<Rightarrow> sync_state \<Rightarrow> SyncResult \<times> sync_state" where
  "sync_now ev rm g do_push st =
     (case sync_body ev rm g do_push st of
        (Inr res, st1) \<Rightarrow> (res, st1)
      | (Inl e, st1) \<Rightarrow>
          let st2 = log_sync ev 0 ''pull'' ''error'' (str_exn e) st1;
              (now, st3) = now_utc ev st2
          in (\<lparr>success = False, direction = ''pull'', pages_synced = 0, pages_skipped = 0,
               errors = [str_exn e], commit_hash = None, timestamp = now\<rparr>, st3))"

section \<open>Notions used in the statements\<close>

text \<open>The candidates a pull has accounted for: synced, skipped or failed.\<close>

definition accounted :: "pull_result \<Rightarrow> nat" where
  "accounted r = synced r + skipped r + length (pull_errors r)"


text \<open>The commit step of a run raises: \<^verbatim>\<open>has_changes\<close> does, or \<^verbatim>\<open>commit_sync\<close> does.\<close>

definition commit_raises :: "git \<Rightarrow> bool" where
  "commit_raises g =
     (case changes g of
        Inl _ \<Rightarrow> True
      | Inr False \<Rightarrow> False
      | Inr True \<Rightarrow> isl (commit_result g))"

section \<open>Example inputs\<close>

text \<open>
  The clock starts at 01:00:00 and moves a quarter of a second with every reading. The
  pages \<open>page_a\<close>, \<open>page_b\<close>, \<open>page_c\<close> and \<open>page_ms\<close> carry the aware times of the API
  (00:10:00+00:00, 00:20:00+00:00, 00:30:00+00:00 and 00:10:00.123+00:00); \<open>page_n\<close> has
  the naive time that \<^verbatim>\<open>_parse_page\<close> takes from the clock, at 00:59:59.
\<close>

definition ev_ex :: env where
  "ev_ex = \<lparr>compute_hash = (\<lambda>s. ''sha256:'' @ s),
            isoformat = (\<lambda>d. if wall d = 600000000 then ''1970-01-01T00:10:00+00:00''
                              else ''1970-01-01T00:20:00+00:00''),
            utcnow = (\<lambda>k. 3600000000 + 250000 * int k)\<rparr>"

definition st_empty :: sync_state where
  "st_empty = \<lparr>db_pages = Map.empty, sync_log = [], files = Map.empty,
               git_head = None, ticks = 0\<rparr>"

text \<open>
  A store with the record of \<open>page_a\<close> as a run stores it, after a run whose push failed;
  and one with the record of \<open>page_n\<close>.
\<close>

definition st_one :: sync_state where
  "st_one = \<lparr>db_pages = [''1a2b3c4d-0000-4000-8000-00000000000a'' \<mapsto>
                 \<lparr>notion_id = ''1a2b3c4d-0000-4000-8000-00000000000a'', title = ''Notes'',
                  parent_id = None, content_hash = ''sha256:hello'',
                  last_edited = \<lparr>wall = 600000000, tz = Some 0\<rparr>,
                  last_synced = \<lparr>wall = 3600000000, tz = None\<rparr>, status = ''synced''\<rparr>],
             sync_log = [\<lparr>log_id = 1, sync_time = 3600000000, log_pages_synced = 1,
                          log_direction = ''pull'', log_status = ''partial'',
                          log_message = ''Push failed: Git command failed: git push origin''\<rparr>],
             files = Map.empty, git_head = Some ''c0ffee11'', ticks = 3\<rparr>"

definition st_n :: sync_state where
  "st_n = \<lparr>db_pages = [''9f8e7d6c-0000-4000-8000-00000000000d'' \<mapsto>
                 \<lparr>notion_id = ''9f8e7d6c-0000-4000-8000-00000000000d'', title = ''Inbox'',
                  parent_id = None, content_hash = ''sha256:hello'',
                  last_edited = \<lparr>wall = 3599000000, tz = None\<rparr>,
                  last_synced = \<lparr>wall = 3600000000, tz = None\<rparr>, status = ''synced''\<rparr>],
           sync_log = [], files = Map.empty, git_head = None, ticks = 1\<rparr>"

definition page_a :: NotionPage where
  "page_a = \<lparr>page_id = ''1a2b3c4d-0000-4000-8000-00000000000a'', page_title = ''Notes'',
             page_parent_id = None, page_content = '''',
             page_last_edited = \<lparr>wall = 600000000, tz = Some 0\<rparr>,
             page_url = ''https://www.notion.so/Notes-a''\<rparr>"

definition page_b :: NotionPage where
  "page_b = \<lparr>page_id = ''5e6f7a8b-0000-4000-8000-00000000000b'', page_title = ''Plans: Q3/Q4'',
             page_parent_id = None, page_content = '''',
             page_last_edited = \<lparr>wall = 1200000000, tz = Some 0\<rparr>,
             page_url = ''https://www.notion.so/Plans-b''\<rparr>"

definition page_c :: NotionPage where
  "page_c = \<lparr>page_id = ''1a2b3c4d-0000-4000-8000-00000000000c'', page_title = ''Notes'',
             page_parent_id = None, page_content = '''',
             page_last_edited = \<lparr>wall = 1800000000, tz = Some 0\<rparr>,
             page_url = ''https://www.notion.so/Notes-c''\<rparr>"

definition page_ms :: NotionPage where
  "page_ms = \<lparr>page_id = ''7c7c7c7c-0000-4000-8000-00000000000e'', page_title = ''Log'',
              page_parent_id = None, page_content = '''',
              page_last_edited = \<lparr>wall = 600123000, tz = Some 0\<rparr>,
              page_url = ''https://www.notion.so/Log-e''\<rparr>"

definition page_n :: NotionPage where
  "page_n = \<lparr>page_id = ''9f8e7d6c-0000-4000-8000-00000000000d'', page_title = ''Inbox'',
             page_parent_id = None, page_content = '''',
             page_last_edited = \<lparr>wall = 3599000000, tz = None\<rparr>,
             page_url = ''https://www.notion.so/Inbox-d''\<rparr>"

definition remote_one :: remote where
  "remote_one = \<lparr>remote_pages = [page_a], query_error = None,
                 blocks_of = (\<lambda>i. Inr ''hello'')\<rparr>"

definition remote_two :: remote where
  "remote_two = \<lparr>remote_pages = [page_a, page_b], query_error = None,
                 blocks_of = (\<lambda>i. Inr ''hello'')\<rparr>"

definition remote_ms :: remote where
  "remote_ms = \<lparr>remote_pages = [page_ms], query_error = None,
                blocks_of = (\<lambda>i. Inr ''hello'')\<rparr>"

definition remote_n :: remote where
  "remote_n = \<lparr>remote_pages = [page_n], query_error = None,
               blocks_of = (\<lambda>i. Inr ''hello'')\<rparr>"

definition remote_b_fails :: remote where
  "remote_b_fails = \<lparr>remote_pages = [page_a, page_b], query_error = None,
                     blocks_of = (\<lambda>i. if i = ''5e6f7a8b-0000-4000-8000-00000000000b''
                                       then Inl ''Notion API error: 404 - not found''
                                       else Inr ''hello'')\<rparr>"

text \<open>A listing that returns \<open>page_n\<close> twice, and \<open>page_b\<close>, whose content cannot be fetched.\<close>

definition remote_twice :: remote where
  "remote_twice = \<lparr>remote_pages = [page_n, page_n, page_b], query_error = None,
                   blocks_of = (\<lambda>i. if i = ''5e6f7a8b-0000-4000-8000-00000000000b''
                                     then Inl ''Notion API error: 404 - not found''
                                     else Inr ''hello'')\<rparr>"

definition remote_down :: remote where
  "remote_down = \<lparr>remote_pages = [page_a], query_error = Some ''Notion API error: 503 - down'',
                  blocks_of = (\<lambda>i. Inr ''hello'')\<rparr>"

definition git_clean :: git where
  "git_clean = \<lparr>changes = Inr False, commit_result = Inr ''c0ffee11'', push_error = None\<rparr>"

definition git_dirty :: git where
  "git_dirty = \<lparr>changes = Inr True, commit_result = Inr ''c0ffee11'', push_error = None\<rparr>"

definition git_commit_fails :: git where
  "git_commit_fails = \<lparr>changes = Inr True,
                       commit_result = Inl ''Git command failed: git commit'',
                       push_error = None\<rparr>"

definition git_push_fails :: git where
  "git_push_fails = \<lparr>changes = Inr True, commit_result = Inr ''c0ffee11'',
                     push_error = Some ''Git command failed: git push origin''\<rparr>"

text \<open>
  Two runs on one page, the first a success; two runs on two pages, the first with a
  failing push; and a run on the page with milliseconds.
\<close>

definition first_pass_ok :: "SyncResult \<times> sync_state" where
  "first_pass_ok = sync_now ev_ex remote_one git_dirty True st_empty"

definition second_pass_ok :: "SyncResult \<times> sync_state" where
  "second_pass_ok = sync_now ev_ex remote_one git_clean True (snd first_pass_ok)"

definition first_pass :: "SyncResult \<times> sync_state" where
  "first_pass = sync_now ev_ex remote_two git_push_fails True st_empty"

definition second_pass :: "SyncResult \<times> sync_state" where
  "second_pass = sync_now ev_ex remote_two git_clean True (snd first_pass)"

definition pass_ms :: "SyncResult \<times> sync_state" where
  "pass_ms = sync_now ev_ex remote_ms git_push_fails True st_empty"

section \<open>The loop over the candidates\<close>

lemma sync_page_cases:
  "sync_page ev rm p st =
     (case blocks_of rm (page_id p) of
        Inl m \<Rightarrow> (Inl (NotionClientError m), st)
      | Inr c \<Rightarrow>
          (case needs_sync st (page_id p) (page_last_edited p) (compute_hash ev c) of
             Inl e \<Rightarrow> (Inl e, st)
           | Inr False \<Rightarrow> (Inr False, st)
           | Inr True \<Rightarrow>
               (Inr True,
                st\<lparr>files := (files st)(page_filename p \<mapsto> frontmatter ev p @ c),
                   ticks := Suc (ticks st),
                   db_pages := (db_pages st)(page_id p \<mapsto>
                     \<lparr>notion_id = page_id p, title = page_title p, parent_id = page_parent_id p,
                      content_hash = compute_hash ev c, last_edited = page_last_edited p,
                      last_synced = \<lparr>wall = utcnow ev (ticks st), tz = None\<rparr>,
                      status = ''synced''\<rparr>)\<rparr>)))"
  by (simp add: sync_page_def get_page_content_def write_page_file_def upsert_page_def now_utc_def
        Let_def split: sum.split bool.split)

lemma pull_step_skip:
  assumes "blocks_of rm (page_id p) = Inr c"
    and "needs_sync st (page_id p) (page_last_edited p) (compute_hash ev c) = Inr False"
  shows "pull_step ev rm p (r, st) = (r\<lparr>skipped := skipped r + 1\<rparr>, st)"
  using assms by (simp add: pull_step_def sync_page_cases)

lemma pull_step_sync:
  assumes "blocks_of rm (page_id p) = Inr c"
    and "needs_sync st (page_id p) (page_last_edited p) (compute_hash ev c) = Inr True"
  shows "pull_step ev rm p (r, st) =
     (r\<lparr>synced := synced r + 1\<rparr>,
      st\<lparr>files := (files st)(page_filename p \<mapsto> frontmatter ev p @ c),
         ticks := Suc (ticks st),
         db_pages := (db_pages st)(page_id p \<mapsto>
           \<lparr>notion_id = page_id p, title = page_title p, parent_id = page_parent_id p,
            content_hash = compute_hash ev c, last_edited = page_last_edited p,
            last_synced = \<lparr>wall = utcnow ev (ticks st), tz = None\<rparr>, status = ''synced''\<rparr>)\<rparr>)"
  using assms by (simp add: pull_step_def sync_page_cases)

lemma pull_step_fail:
  assumes "blocks_of rm (page_id p) = Inl m"
  shows "pull_step ev rm p (r, st) =
     (r\<lparr>pull_errors := pull_errors r @ [''Failed to sync '' @ page_id p @ '': '' @ m]\<rparr>, st)"
  using assms by (simp add: pull_step_def sync_page_cases)

lemma pull_step_raise:
  assumes "blocks_of rm (page_id p) = Inr c"
    and "needs_sync st (page_id p) (page_last_edited p) (compute_hash ev c) = Inl e"
  shows "pull_step ev rm p (r, st) =
     (r\<lparr>pull_errors := pull_errors r @ [''Failed to sync '' @ page_id p @ '': '' @ str_exn e]\<rparr>, st)"
  using assms by (simp add: pull_step_def sync_page_cases)

text \<open>The four ways an iteration can end.\<close>

lemma pull_step_outcome:
  obtains (fail) m where "blocks_of rm (page_id p) = Inl m"
  | (raise) c e where "blocks_of rm (page_id p) = Inr c"
      and "needs_sync st (page_id p) (page_last_edited p) (compute_hash ev c) = Inl e"
  | (skip) c where "blocks_of rm (page_id p) = Inr c"
      and "needs_sync st (page_id p) (page_last_edited p) (compute_hash ev c) = Inr False"
  | (sync) c where "blocks_of rm (page_id p) = Inr c"
      and "needs_sync st (page_id p) (page_last_edited p) (compute_hash ev c) = Inr True"
proof (cases "blocks_of rm (page_id p)")
  case (Inl m)
  then show ?thesis by (rule fail)
next
  case (Inr c)
  show ?thesis
  proof (cases "needs_sync st (page_id p) (page_last_edited p) (compute_hash ev c)")
    case (Inl e)
    with Inr show ?thesis by (rule raise)
  next
    case b: (Inr b)
    show ?thesis
    proof (cases b)
      case True
      with Inr b show ?thesis by (simp add: sync)
    next
      case False
      with Inr b show ?thesis by (simp add: skip)
    qed
  qed
qed

lemma pull_step_accounted: "accounted (fst (pull_step ev rm p acc)) = Suc (accounted (fst acc))"
proof (cases acc)
  case (Pair r st)
  show ?thesis
  proof (cases rule: pull_step_outcome [where rm = rm and p = p and st = st and ev = ev])
    case (fail m)
    then show ?thesis using Pair by (simp add: pull_step_fail accounted_def)
  next
    case (raise c e)
    then show ?thesis using Pair by (simp add: pull_step_raise accounted_def)
  next
    case (skip c)
    then show ?thesis using Pair by (simp add: pull_step_skip accounted_def)
  next
    case (sync c)
    then show ?thesis using Pair by (simp add: pull_step_sync accounted_def)
  qed
qed

lemma pull_loop_accounted:
  "accounted (fst (pull_loop ev rm ps acc)) = accounted (fst acc) + length ps"
  by (induction ps arbitrary: acc) (simp_all add: pull_step_accounted)

lemma pull_from_notion_listed:
  assumes "get_database_pages rm (get_last_sync_time st) = Inr pages"
  shows "pull_from_notion ev rm st =
     (Inr (fst (pull_loop ev rm pages (\<lparr>synced = 0, skipped = 0, pull_errors = []\<rparr>, st))),
      snd (pull_loop ev rm pages (\<lparr>synced = 0, skipped = 0, pull_errors = []\<rparr>, st)))"
  using assms by (simp add: pull_from_notion_def Let_def split_beta)

lemmas ex_defs = ev_ex_def st_empty_def st_one_def st_n_def page_a_def page_b_def page_c_def
  page_ms_def page_n_def remote_one_def remote_two_def remote_ms_def remote_n_def
  remote_b_fails_def remote_twice_def remote_down_def git_clean_def git_dirty_def
  git_commit_fails_def git_push_fails_def

lemmas store_defs = needs_sync_def get_page_def convert_timestamp_def dt_greater_def instant_def
  two_digits_def quote_def upsert_page_def log_sync_def now_utc_def current_timestamp_def
  get_last_sync_time_def

lemmas run_defs = sync_now_def sync_body_def pull_from_notion_def get_database_pages_def
  query_database_def commit_and_push_def has_changes_def commit_sync_def push_def pull_step_def
  sync_page_def get_page_content_def write_page_file_def Let_def

lemmas pass_defs = first_pass_ok_def second_pass_ok_def first_pass_def second_pass_def pass_ms_def

text \<open>
  C9. When the listing returns the candidates, the pull returns, and its synced count,
  its skipped count and the number of its error entries (all of them appended inside the
  loop, whatever raised) add up to the number of candidates.
\<close>

theorem candidates_accounted_once:
  assumes "get_database_pages rm (get_last_sync_time st) = Inr pages"
  shows "\<exists>r st'. pull_from_notion ev rm st = (Inr r, st')
           \<and> synced r + skipped r + length (pull_errors r) = length pages"
proof -
  let ?acc = "(\<lparr>synced = 0, skipped = 0, pull_errors = []\<rparr>, st)"
  let ?r = "fst (pull_loop ev rm pages ?acc)"
  have "accounted ?r = accounted (fst ?acc) + length pages"
    by (rule pull_loop_accounted)
  then have "synced ?r + skipped ?r + length (pull_errors ?r) = length pages"
    by (simp add: accounted_def)
  then show ?thesis
    unfolding pull_from_notion_listed [OF assms] by blast
qed

theorem candidates_accounted_once_witness:
  "get_database_pages remote_b_fails (get_last_sync_time st_one) = Inr [page_a, page_b]
   \<and> (\<exists>r st'. pull_from_notion ev_ex remote_b_fails st_one = (Inr r, st')
         \<and> synced r + skipped r + length (pull_errors r) = 2)"
proof -
  have h: "get_database_pages remote_b_fails (get_last_sync_time st_one) = Inr [page_a, page_b]"
    by (simp add: get_database_pages_def query_database_def get_last_sync_time_def
          remote_b_fails_def st_one_def)
  from h candidates_accounted_once [OF h, of ev_ex] show ?thesis
    by (simp add: numeral_2_eq_2)
qed

text \<open>
  C10. A candidate whose content is fetched and for which \<open>needs_sync\<close> answers false
  leaves the whole state as it was, the record store and the files of the pages
  directory included, and of the counters only the skipped count changes, by one.
\<close>

theorem skipped_page_changes_nothing:
  assumes "get_page_content rm (page_id p) = Inr c"
    and "needs_sync st (page_id p) (page_last_edited p) (compute_hash ev c) = Inr False"
  shows "pull_step ev rm p (r, st) = (r\<lparr>skipped := skipped r + 1\<rparr>, st)"
proof -
  from assms(1) have "blocks_of rm (page_id p) = Inr c"
    by (simp add: get_page_content_def split: sum.splits)
  from this assms(2) show ?thesis by (rule pull_step_skip)
qed

theorem skipped_page_changes_nothing_witness:
  "get_page_content remote_n (page_id page_n) = Inr ''hello''
   \<and> needs_sync st_n (page_id page_n) (page_last_edited page_n) (compute_hash ev_ex ''hello'')
       = Inr False
   \<and> pull_step ev_ex remote_n page_n (\<lparr>synced = 0, skipped = 0, pull_errors = []\<rparr>, st_n) =
       (\<lparr>synced = 0, skipped = 1, pull_errors = []\<rparr>, st_n)"
proof -
  have h1: "get_page_content remote_n (page_id page_n) = Inr ''hello''"
    by (simp add: get_page_content_def remote_n_def)
  have h2: "needs_sync st_n (page_id page_n) (page_last_edited page_n)
                (compute_hash ev_ex ''hello'') = Inr False"
    by (simp add: store_defs st_n_def page_n_def ev_ex_def)
  from h1 h2 skipped_page_changes_nothing [OF h1 h2, of "\<lparr>synced = 0, skipped = 0, pull_errors = []\<rparr>"]
  show ?thesis by simp
qed


section \<open>Facts about a run\<close>

lemma log_sync_fields:
  "db_pages (log_sync ev n d s m st) = db_pages st"
  "files (log_sync ev n d s m st) = files st"
  "git_head (log_sync ev n d s m st) = git_head st"
  "ticks (log_sync ev n d s m st) = Suc (ticks st)"
  "sync_log (log_sync ev n d s m st) = sync_log st @
      [\<lparr>log_id = Suc (length (sync_log st)),
        sync_time = current_timestamp (utcnow ev (ticks st)), log_pages_synced = n,
        log_direction = d, log_status = s, log_message = m\<rparr>]"
  by (simp_all add: log_sync_def now_utc_def)

lemma commit_and_push_cases:
  "commit_and_push g dp errs st =
     (case changes g of
        Inl m \<Rightarrow> (Inl (GitOperationsError m), st)
      | Inr False \<Rightarrow> (Inr (None, errs), st)
      | Inr True \<Rightarrow>
          (case commit_result g of
             Inl m \<Rightarrow> (Inl (GitOperationsError m), st)
           | Inr h \<Rightarrow>
               (Inr (Some h,
                     if dp then (case push_error g of
                                   None \<Rightarrow> errs
                                 | Some m \<Rightarrow> errs @ [''Push failed: '' @ m])
                     else errs),
                st\<lparr>git_head := Some h\<rparr>)))"
  by (simp add: commit_and_push_def has_changes_def commit_sync_def push_def
        split: sum.split bool.split option.split)

lemma pull_step_frame:
  "sync_log (snd (pull_step ev rm p acc)) = sync_log (snd acc)"
  "git_head (snd (pull_step ev rm p acc)) = git_head (snd acc)"
  by (cases acc; simp add: pull_step_def sync_page_cases split: sum.split bool.split)+

lemma pull_loop_frame:
  "sync_log (snd (pull_loop ev rm ps acc)) = sync_log (snd acc)"
  "git_head (snd (pull_loop ev rm ps acc)) = git_head (snd acc)"
  by (induction ps arbitrary: acc; simp add: pull_step_frame)+

text \<open>The three ways the pull can end.\<close>

lemma pull_from_notion_outcome:
  obtains (refused) m where "get_database_pages rm (get_last_sync_time st) = Inl (NotionClientError m)"
      and "pull_from_notion ev rm st =
             (Inr \<lparr>synced = 0, skipped = 0, pull_errors = [''Failed to fetch pages: '' @ m]\<rparr>, st)"
  | (raised) e where "get_database_pages rm (get_last_sync_time st) = Inl e"
      and "pull_from_notion ev rm st = (Inl e, st)"
  | (listed) pages where "get_database_pages rm (get_last_sync_time st) = Inr pages"
      and "pull_from_notion ev rm st =
             (Inr (fst (pull_loop ev rm pages (\<lparr>synced = 0, skipped = 0, pull_errors = []\<rparr>, st))),
              snd (pull_loop ev rm pages (\<lparr>synced = 0, skipped = 0, pull_errors = []\<rparr>, st)))"
proof (cases "get_database_pages rm (get_last_sync_time st)")
  case (Inr pages)
  from Inr pull_from_notion_listed [OF Inr] show ?thesis by (rule listed)
next
  case (Inl e)
  show ?thesis
  proof (cases e)
    case (NotionClientError m)
    with Inl have "pull_from_notion ev rm st =
        (Inr \<lparr>synced = 0, skipped = 0, pull_errors = [''Failed to fetch pages: '' @ m]\<rparr>, st)"
      by (simp add: pull_from_notion_def)
    with Inl NotionClientError show ?thesis by (simp add: refused)
  qed (use Inl in \<open>simp_all add: raised pull_from_notion_def\<close>)
qed

lemma pull_from_notion_frame:
  assumes "pull_from_notion ev rm st = (x, st1)"
  shows "sync_log st1 = sync_log st" and "git_head st1 = git_head st"
  using assms
  by (cases rule: pull_from_notion_outcome [where rm = rm and st = st and ev = ev];
      auto simp add: pull_loop_frame)+

lemma sync_now_aborted:
  assumes "pull_from_notion ev rm st = (Inl e, st1)"
  shows "sync_now ev rm g dp st =
     (\<lparr>success = False, direction = ''pull'', pages_synced = 0, pages_skipped = 0,
       errors = [str_exn e], commit_hash = None,
       timestamp = \<lparr>wall = utcnow ev (Suc (ticks st1)), tz = None\<rparr>\<rparr>,
      (log_sync ev 0 ''pull'' ''error'' (str_exn e) st1)\<lparr>ticks := Suc (Suc (ticks st1))\<rparr>)"
  using assms by (simp add: sync_now_def sync_body_def now_utc_def log_sync_fields)

lemma sync_now_raised:
  assumes "pull_from_notion ev rm st = (Inr pr, st1)"
    and "commit_and_push g dp (pull_errors pr) st1 = (Inl e, st2)"
  shows "sync_now ev rm g dp st =
     (\<lparr>success = False, direction = ''pull'', pages_synced = 0, pages_skipped = 0,
       errors = [str_exn e], commit_hash = None,
       timestamp = \<lparr>wall = utcnow ev (Suc (ticks st2)), tz = None\<rparr>\<rparr>,
      (log_sync ev 0 ''pull'' ''error'' (str_exn e) st2)\<lparr>ticks := Suc (Suc (ticks st2))\<rparr>)"
  using assms by (simp add: sync_now_def sync_body_def now_utc_def log_sync_fields)

lemma sync_now_finished:
  assumes "pull_from_notion ev rm st = (Inr pr, st1)"
    and "commit_and_push g dp (pull_errors pr) st1 = (Inr (ch, errs), st2)"
  shows "sync_now ev rm g dp st =
     (\<lparr>success = (errs = []), direction = ''pull'', pages_synced = synced pr,
       pages_skipped = skipped pr, errors = errs, commit_hash = ch,
       timestamp = \<lparr>wall = utcnow ev (Suc (ticks st2)), tz = None\<rparr>\<rparr>,
      (log_sync ev (synced pr) ''pull'' (if errs = [] then ''success'' else ''partial'')
         (if errs \<noteq> [] then join_errors errs else '''') st2)\<lparr>ticks := Suc (Suc (ticks st2))\<rparr>)"
  using assms by (simp add: sync_now_def sync_body_def now_utc_def log_sync_fields Let_def)

lemma commit_raises_result:
  assumes "commit_raises g"
  shows "\<exists>m. commit_and_push g dp errs st = (Inl (GitOperationsError m), st)"
  using assms
  by (cases "changes g"; cases "commit_result g")
     (auto simp add: commit_raises_def commit_and_push_cases split: bool.splits)

lemma commit_ok_result:
  assumes "\<not> commit_raises g"
  shows "\<exists>ch errs' st2. commit_and_push g dp errs st = (Inr (ch, errs'), st2)
    \<and> db_pages st2 = db_pages st \<and> files st2 = files st \<and> sync_log st2 = sync_log st
    \<and> ticks st2 = ticks st"
  using assms
  by (cases "changes g"; cases "commit_result g")
     (auto simp add: commit_raises_def commit_and_push_cases split: bool.splits)

lemma pull_step_no_push_error:
  assumes "\<forall>e\<in>set (pull_errors (fst acc)). \<not> prefix ''Push failed: '' e"
  shows "\<forall>e\<in>set (pull_errors (fst (pull_step ev rm p acc))). \<not> prefix ''Push failed: '' e"
  using assms
  by (cases acc) (auto simp add: pull_step_def sync_page_cases split: sum.splits bool.splits)

lemma pull_loop_no_push_error:
  assumes "\<forall>e\<in>set (pull_errors (fst acc)). \<not> prefix ''Push failed: '' e"
  shows "\<forall>e\<in>set (pull_errors (fst (pull_loop ev rm ps acc))). \<not> prefix ''Push failed: '' e"
  using assms
proof (induction ps arbitrary: acc)
  case Nil
  then show ?case by simp
next
  case (Cons p ps)
  from Cons.prems have "\<forall>e\<in>set (pull_errors (fst (pull_step ev rm p acc))).
      \<not> prefix ''Push failed: '' e"
    by (rule pull_step_no_push_error)
  then show ?case by (simp add: Cons.IH)
qed

lemma pull_no_push_error:
  assumes "pull_from_notion ev rm st = (Inr pr, st1)"
  shows "filter (prefix ''Push failed: '') (pull_errors pr) = []"
proof -
  have "\<forall>e\<in>set (pull_errors pr). \<not> prefix ''Push failed: '' e"
  proof (cases rule: pull_from_notion_outcome [where rm = rm and st = st and ev = ev])
    case (refused m)
    with assms show ?thesis by auto
  next
    case (raised e)
    with assms show ?thesis by simp
  next
    case (listed pages)
    let ?acc = "(\<lparr>synced = 0, skipped = 0, pull_errors = []\<rparr>, st)"
    have "\<forall>e\<in>set (pull_errors (fst (pull_loop ev rm pages ?acc))). \<not> prefix ''Push failed: '' e"
      by (rule pull_loop_no_push_error) simp
    moreover from assms listed have "pr = fst (pull_loop ev rm pages ?acc)"
      by simp
    ultimately show ?thesis by simp
  qed
  then show ?thesis by (simp add: filter_empty_conv)
qed

text \<open>
  C6. In a run that reaches the commit step, where \<^verbatim>\<open>has_changes\<close> is true,
  \<^verbatim>\<open>commit_sync\<close> returns the commit \<open>h\<close> and the push fails, the result carries \<open>h\<close> as
  its commit hash, HEAD is still \<open>h\<close> when the run ends, and exactly one entry of the
  error list starts with \<open>Push failed: \<close>, the one with the message of the failed push.
\<close>

theorem push_failure_keeps_commit:
  assumes "changes g = Inr True" and "commit_result g = Inr h" and "push_error g = Some m"
    and pull: "pull_from_notion ev rm st = (Inr pr, st1)"
    and run: "sync_now ev rm g True st = (res, st')"
  shows "commit_hash res = Some h \<and> git_head st' = Some h
    \<and> filter (prefix ''Push failed: '') (errors res) = [''Push failed: '' @ m]"
proof -
  have cp: "commit_and_push g True (pull_errors pr) st1 =
      (Inr (Some h, pull_errors pr @ [''Push failed: '' @ m]), st1\<lparr>git_head := Some h\<rparr>)"
    using assms(1-3) by (simp add: commit_and_push_cases)
  from run have res: "res = fst (sync_now ev rm g True st)" and st': "st' = snd (sync_now ev rm g True st)"
    by simp_all
  have "commit_hash res = Some h"
    unfolding res sync_now_finished [OF pull cp] by simp
  moreover have "git_head st' = Some h"
    unfolding st' sync_now_finished [OF pull cp] by (simp add: log_sync_fields)
  moreover have "errors res = pull_errors pr @ [''Push failed: '' @ m]"
    unfolding res sync_now_finished [OF pull cp] by simp
  then have "filter (prefix ''Push failed: '') (errors res) = [''Push failed: '' @ m]"
    by (simp add: pull_no_push_error [OF pull])
  ultimately show ?thesis by blast
qed

theorem push_failure_keeps_commit_witness:
  "changes git_push_fails = Inr True
   \<and> commit_result git_push_fails = Inr ''c0ffee11''
   \<and> push_error git_push_fails = Some ''Git command failed: git push origin''
   \<and> fst (pull_from_notion ev_ex remote_b_fails st_empty) =
       Inr \<lparr>synced = 1, skipped = 0, pull_errors =
         [''Failed to sync 5e6f7a8b-0000-4000-8000-00000000000b: Notion API error: 404 - not found'']\<rparr>
   \<and> commit_hash (fst (sync_now ev_ex remote_b_fails git_push_fails True st_empty)) = Some ''c0ffee11''
   \<and> git_head (snd (sync_now ev_ex remote_b_fails git_push_fails True st_empty)) = Some ''c0ffee11''
   \<and> filter (prefix ''Push failed: '')
        (errors (fst (sync_now ev_ex remote_b_fails git_push_fails True st_empty))) =
      [''Push failed: Git command failed: git push origin'']"
proof -
  have h1: "changes git_push_fails = Inr True"
    and h2: "commit_result git_push_fails = Inr ''c0ffee11''"
    and h3: "push_error git_push_fails = Some ''Git command failed: git push origin''"
    by (simp_all add: git_push_fails_def)
  have h4: "fst (pull_from_notion ev_ex remote_b_fails st_empty) =
       Inr \<lparr>synced = 1, skipped = 0, pull_errors =
         [''Failed to sync 5e6f7a8b-0000-4000-8000-00000000000b: Notion API error: 404 - not found'']\<rparr>"
    by (simp add: run_defs store_defs ex_defs)
  then have h5: "pull_from_notion ev_ex remote_b_fails st_empty =
      (Inr \<lparr>synced = 1, skipped = 0, pull_errors =
         [''Failed to sync 5e6f7a8b-0000-4000-8000-00000000000b: Notion API error: 404 - not found'']\<rparr>,
       snd (pull_from_notion ev_ex remote_b_fails st_empty))"
    by (simp add: prod_eq_iff)
  have h6: "sync_now ev_ex remote_b_fails git_push_fails True st_empty =
      (fst (sync_now ev_ex remote_b_fails git_push_fails True st_empty),
       snd (sync_now ev_ex remote_b_fails git_push_fails True st_empty))"
    by simp
  from h1 h2 h3 h4 push_failure_keeps_commit [OF h1 h2 h3 h5 h6] show ?thesis
    by simp
qed

text \<open>
  C7, amended. In every run whose pull returns (the loop is completed) and whose commit
  step raises nothing, exactly one log entry is appended; its status is \<open>success\<close> when
  the error list of the result is empty and \<open>partial\<close> otherwise; its \<open>pages_synced\<close> is
  the synced count of the pull, which is also the count of the result; and the success
  flag is true exactly when the error list is empty.
\<close>

theorem log_entry_summarises_run:
  assumes ok: "\<not> commit_raises g"
    and pull: "pull_from_notion ev rm st = (Inr pr, st1)"
    and run: "sync_now ev rm g dp st = (res, st')"
  shows "\<exists>e. sync_log st' = sync_log st @ [e]
     \<and> log_status e = (if errors res = [] then ''success'' else ''partial'')
     \<and> log_pages_synced e = synced pr
     \<and> pages_synced res = synced pr
     \<and> (success res \<longleftrightarrow> errors res = [])"
proof -
  from commit_ok_result [OF ok, of dp "pull_errors pr" st1]
  obtain ch errs st2 where cp: "commit_and_push g dp (pull_errors pr) st1 = (Inr (ch, errs), st2)"
    and log2: "sync_log st2 = sync_log st1"
    by blast
  have log1: "sync_log st1 = sync_log st"
    using pull by (rule pull_from_notion_frame)
  let ?e = "\<lparr>log_id = Suc (length (sync_log st)),
             sync_time = current_timestamp (utcnow ev (ticks st2)),
             log_pages_synced = synced pr, log_direction = ''pull'',
             log_status = (if errs = [] then ''success'' else ''partial''),
             log_message = (if errs \<noteq> [] then join_errors errs else '''')\<rparr>"
  from run have res: "res = fst (sync_now ev rm g dp st)" and st': "st' = snd (sync_now ev rm g dp st)"
    by simp_all
  have a: "sync_log st' = sync_log st @ [?e]"
    unfolding st' sync_now_finished [OF pull cp] by (simp add: log_sync_fields log1 log2)
  have b: "errors res = errs" "pages_synced res = synced pr" "success res = (errs = [])"
    unfolding res sync_now_finished [OF pull cp] by simp_all
  from a b show ?thesis by auto
qed

theorem log_entry_summarises_run_witness:
  "\<not> commit_raises git_dirty
   \<and> fst (pull_from_notion ev_ex remote_b_fails st_empty) =
       Inr \<lparr>synced = 1, skipped = 0, pull_errors =
         [''Failed to sync 5e6f7a8b-0000-4000-8000-00000000000b: Notion API error: 404 - not found'']\<rparr>
   \<and> (\<exists>e. sync_log (snd (sync_now ev_ex remote_b_fails git_dirty False st_empty)) =
           sync_log st_empty @ [e]
       \<and> log_status e =
           (if errors (fst (sync_now ev_ex remote_b_fails git_dirty False st_empty)) = []
            then ''success'' else ''partial'')
       \<and> log_pages_synced e = 1
       \<and> pages_synced (fst (sync_now ev_ex remote_b_fails git_dirty False st_empty)) = 1
       \<and> (success (fst (sync_now ev_ex remote_b_fails git_dirty False st_empty)) \<longleftrightarrow>
            errors (fst (sync_now ev_ex remote_b_fails git_dirty False st_empty)) = []))"
proof -
  have h1: "\<not> commit_raises git_dirty"
    by (simp add: commit_raises_def git_dirty_def)
  have h2: "fst (pull_from_notion ev_ex remote_b_fails st_empty) =
       Inr \<lparr>synced = 1, skipped = 0, pull_errors =
         [''Failed to sync 5e6f7a8b-0000-4000-8000-00000000000b: Notion API error: 404 - not found'']\<rparr>"
    by (simp add: run_defs store_defs ex_defs)
  then have h3: "pull_from_notion ev_ex remote_b_fails st_empty =
      (Inr \<lparr>synced = 1, skipped = 0, pull_errors =
         [''Failed to sync 5e6f7a8b-0000-4000-8000-00000000000b: Notion API error: 404 - not found'']\<rparr>,
       snd (pull_from_notion ev_ex remote_b_fails st_empty))"
    by (simp add: prod_eq_iff)
  have h4: "sync_now ev_ex remote_b_fails git_dirty False st_empty =
      (fst (sync_now ev_ex remote_b_fails git_dirty False st_empty),
       snd (sync_now ev_ex remote_b_fails git_dirty False st_empty))"
    by simp
  from h1 h2 log_entry_summarises_run [OF h1 h3 h4] show ?thesis
    by simp
qed

text \<open>
  C7 as stated fails when the commit raises after the loop has synced a page: the error
  list holds the message of the commit, yet the entry's status is \<open>error\<close>, not
  \<open>partial\<close>, and it counts zero pages although the loop synced one.
\<close>

theorem commit_failure_logged_as_error:
  "fst (pull_from_notion ev_ex remote_one st_empty) =
     Inr \<lparr>synced = 1, skipped = 0, pull_errors = []\<rparr>
   \<and> errors (fst (sync_now ev_ex remote_one git_commit_fails True st_empty)) =
       [''Git command failed: git commit'']
   \<and> map log_status (sync_log (snd (sync_now ev_ex remote_one git_commit_fails True st_empty))) =
       [''error'']
   \<and> map log_pages_synced (sync_log (snd (sync_now ev_ex remote_one git_commit_fails True st_empty))) =
       [0]"
  by (simp add: run_defs store_defs ex_defs)

text \<open>
  C2, amended. When the query for the candidates fails with a \<^verbatim>\<open>NotionClientError\<close>, no
  page is processed: the pages table and the page files stay as they were, the result is
  a failure with zero synced and zero skipped, and one log entry counting zero pages is
  appended. The run goes on to the commit step all the same: the entry's status is
  \<open>partial\<close>, and \<open>error\<close> only when the commit step raises; and pending changes are
  committed.
\<close>

theorem listing_failure_run:
  assumes fail: "get_database_pages rm (get_last_sync_time st) = Inl (NotionClientError m)"
    and run: "sync_now ev rm g dp st = (res, st')"
  shows "\<not> success res \<and> pages_synced res = 0 \<and> pages_skipped res = 0
     \<and> db_pages st' = db_pages st \<and> files st' = files st
     \<and> (\<exists>e. sync_log st' = sync_log st @ [e] \<and> log_pages_synced e = 0
            \<and> log_status e = (if commit_raises g then ''error'' else ''partial''))
     \<and> (changes g = Inr True \<and> commit_result g = Inr h \<longrightarrow>
            commit_hash res = Some h \<and> git_head st' = Some h)"
proof -
  let ?pr = "\<lparr>synced = 0, skipped = 0, pull_errors = [''Failed to fetch pages: '' @ m]\<rparr>"
  have pull: "pull_from_notion ev rm st = (Inr ?pr, st)"
    using fail by (simp add: pull_from_notion_def)
  from run have res: "res = fst (sync_now ev rm g dp st)" and st': "st' = snd (sync_now ev rm g dp st)"
    by simp_all
  show ?thesis
  proof (cases "commit_raises g")
    case True
    from commit_raises_result [OF True, of dp "pull_errors ?pr" st]
    obtain m' where cp: "commit_and_push g dp (pull_errors ?pr) st = (Inl (GitOperationsError m'), st)"
      by blast
    from True have nc: "\<not> (changes g = Inr True \<and> commit_result g = Inr h)"
      by (auto simp add: commit_raises_def)
    show ?thesis
      unfolding res st' sync_now_raised [OF pull cp] using True nc
      by (simp add: log_sync_fields)
  next
    case False
    from commit_ok_result [OF False, of dp "pull_errors ?pr" st]
    obtain ch errs st2 where cp: "commit_and_push g dp (pull_errors ?pr) st = (Inr (ch, errs), st2)"
      and fr: "db_pages st2 = db_pages st" "files st2 = files st" "sync_log st2 = sync_log st"
      by blast
    have ne: "errs \<noteq> []"
      using cp by (auto simp add: commit_and_push_cases split: sum.splits bool.splits option.splits if_splits)
    have hd: "changes g = Inr True \<and> commit_result g = Inr h \<longrightarrow> ch = Some h \<and> git_head st2 = Some h"
      using cp by (auto simp add: commit_and_push_cases)
    show ?thesis
      unfolding res st' sync_now_finished [OF pull cp] using False ne hd fr
      by (simp add: log_sync_fields)
  qed
qed

theorem listing_failure_run_witness:
  "get_database_pages remote_down (get_last_sync_time st_one) =
     Inl (NotionClientError ''Notion API error: 503 - down'')
   \<and> \<not> success (fst (sync_now ev_ex remote_down git_clean True st_one))
   \<and> pages_synced (fst (sync_now ev_ex remote_down git_clean True st_one)) = 0
   \<and> pages_skipped (fst (sync_now ev_ex remote_down git_clean True st_one)) = 0
   \<and> db_pages (snd (sync_now ev_ex remote_down git_clean True st_one)) = db_pages st_one
   \<and> files (snd (sync_now ev_ex remote_down git_clean True st_one)) = files st_one
   \<and> (\<exists>e. sync_log (snd (sync_now ev_ex remote_down git_clean True st_one)) = sync_log st_one @ [e]
          \<and> log_pages_synced e = 0 \<and> log_status e = ''partial'')"
proof -
  have h1: "get_database_pages remote_down (get_last_sync_time st_one) =
     Inl (NotionClientError ''Notion API error: 503 - down'')"
    by (simp add: get_database_pages_def query_database_def get_last_sync_time_def
          remote_down_def st_one_def)
  have h2: "sync_now ev_ex remote_down git_clean True st_one =
      (fst (sync_now ev_ex remote_down git_clean True st_one),
       snd (sync_now ev_ex remote_down git_clean True st_one))"
    by simp
  have h3: "\<not> commit_raises git_clean"
    by (simp add: commit_raises_def git_clean_def)
  from h1 h3 listing_failure_run [OF h1 h2, of "''''"] show ?thesis
    by simp
qed

text \<open>
  C2 as stated fails: with the query failing and changes pending, the log entry has the
  status \<open>partial\<close> and a commit is made.
\<close>

theorem listing_failure_logged_partial_and_committed:
  "get_database_pages remote_down (get_last_sync_time st_empty) =
     Inl (NotionClientError ''Notion API error: 503 - down'')
   \<and> map log_status (sync_log (snd (sync_now ev_ex remote_down git_dirty True st_empty))) =
       [''partial'']
   \<and> commit_hash (fst (sync_now ev_ex remote_down git_dirty True st_empty)) = Some ''c0ffee11''
   \<and> git_head (snd (sync_now ev_ex remote_down git_dirty True st_empty)) = Some ''c0ffee11''"
  by (simp add: run_defs store_defs ex_defs)


section \<open>One failed fetch\<close>











section \<open>The dirty check and the second run on stored records\<close>

text \<open>Where all the times are naive, the check answers as its docstring says.\<close>

lemma needs_sync_naive:
  assumes "db_pages st nid = Some r" and "tz (last_edited r) = None"
    and "tz (last_synced r) = None" and "tz edited = None"
  shows "needs_sync st nid edited h =
     Inr (content_hash r \<noteq> h \<or> wall (last_synced r) < wall edited)"
  using assms
  by (auto simp add: needs_sync_def get_page_def convert_timestamp_def dt_greater_def
        split: bool.split)

text \<open>
  C1, on the records a run has stored for pages of the API. After the first run the
  record of \<open>page_a\<close> exists with the hash of its content and a \<open>last_synced\<close> after its
  edit time, yet \<open>needs_sync\<close> does not answer false: reading the record raises
  \<^verbatim>\<open>ValueError\<close>, for the stored \<open>last_edited\<close> is aware and has no microseconds. With
  milliseconds in the edit time (\<open>page_ms\<close>) the record is read, and the comparison of
  the aware edit time with the naive \<open>last_synced\<close> raises \<^verbatim>\<open>TypeError\<close>.
\<close>

theorem needs_sync_raises_on_stored_record:
  "map_option content_hash (db_pages (snd first_pass_ok) (page_id page_a)) = Some ''sha256:hello''
   \<and> map_option last_synced (db_pages (snd first_pass_ok) (page_id page_a)) =
       Some \<lparr>wall = 3600000000, tz = None\<rparr>
   \<and> page_last_edited page_a = \<lparr>wall = 600000000, tz = Some 0\<rparr>
   \<and> needs_sync (snd first_pass_ok) (page_id page_a) (page_last_edited page_a) ''sha256:hello'' =
       Inl (ValueError (''invalid literal for int() with base 10: b'' @ quote @ ''00+00'' @ quote))
   \<and> map_option content_hash (db_pages (snd pass_ms) (page_id page_ms)) = Some ''sha256:hello''
   \<and> needs_sync (snd pass_ms) (page_id page_ms) (page_last_edited page_ms) ''sha256:hello'' =
       Inl (TypeError (''can'' @ quote @ ''t compare offset-naive and offset-aware datetimes''))"
  by (simp add: pass_defs run_defs store_defs ex_defs)

text \<open>
  C4, on two runs in succession with nothing changed on the remote. After a successful
  first run that synced one page, \<open>get_last_sync_time\<close> returns a \<^verbatim>\<open>str\<close>, the listing of
  the second run raises \<^verbatim>\<open>AttributeError\<close>, and the second result is a failure with 0
  synced and 0 skipped, logged as \<open>error\<close>. After a first run whose push failed, the
  second run lists both pages it had synced and counts each as an error, not as skipped,
  since reading their records raises.
\<close>

theorem second_run_after_success_fails:
  "success (fst first_pass_ok)
   \<and> pages_synced (fst first_pass_ok) = 1
   \<and> get_last_sync_time (snd first_pass_ok) = Some (Text 3600000000)
   \<and> \<not> success (fst second_pass_ok)
   \<and> pages_synced (fst second_pass_ok) = 0
   \<and> pages_skipped (fst second_pass_ok) = 0
   \<and> errors (fst second_pass_ok) =
       [quote @ ''str'' @ quote @ '' object has no attribute '' @ quote @ ''isoformat'' @ quote]
   \<and> map log_status (sync_log (snd second_pass_ok)) = [''success'', ''error'']
   \<and> pages_synced (fst first_pass) = 2
   \<and> get_last_sync_time (snd first_pass) = None
   \<and> pages_synced (fst second_pass) = 0
   \<and> pages_skipped (fst second_pass) = 0
   \<and> errors (fst second_pass) =
       [''Failed to sync 1a2b3c4d-0000-4000-8000-00000000000a: invalid literal for int() with base 10: b''
          @ quote @ ''00+00'' @ quote,
        ''Failed to sync 5e6f7a8b-0000-4000-8000-00000000000b: invalid literal for int() with base 10: b''
          @ quote @ ''00+00'' @ quote]"
  by (simp add: pass_defs run_defs store_defs ex_defs)


section \<open>File names and file text\<close>

lemma strip_parts:
  "\<exists>a b. s = a @ strip s @ b \<and> (\<forall>c\<in>set a. isspace c) \<and> (\<forall>c\<in>set b. isspace c)"
proof -
  let ?u = "dropWhile isspace s"
  let ?a = "takeWhile isspace s"
  let ?b = "rev (takeWhile isspace (rev ?u))"
  have "rev (takeWhile isspace (rev ?u) @ dropWhile isspace (rev ?u)) = rev (rev ?u)"
    by (simp only: takeWhile_dropWhile_id)
  then have "rev (dropWhile isspace (rev ?u)) @ ?b = ?u"
    by (simp only: rev_append rev_rev_ident)
  then have u: "?u = strip s @ ?b"
    by (simp only: strip_def)
  have "s = ?a @ ?u" by simp
  with u have "s = ?a @ strip s @ ?b" by simp
  moreover have "\<forall>c\<in>set ?a. isspace c"
    by (auto dest: set_takeWhileD)
  moreover have "\<forall>c\<in>set ?b. isspace c"
    by (auto dest: set_takeWhileD)
  ultimately show ?thesis by blast
qed

lemma strip_ends:
  assumes "strip s \<noteq> []"
  shows "\<not> isspace (hd (strip s))" and "\<not> isspace (last (strip s))"
proof -
  let ?u = "dropWhile isspace s"
  let ?v = "dropWhile isspace (rev ?u)"
  from assms have v: "?v \<noteq> []" by (simp add: strip_def)
  then have "\<not> isspace (hd ?v)" by (rule hd_dropWhile)
  with v show "\<not> isspace (last (strip s))"
    by (simp add: strip_def last_rev)
  have u: "?u \<noteq> []"
  proof
    assume "?u = []"
    then have "?v = []" by (simp only: rev.simps dropWhile.simps)
    with v show False by simp
  qed
  then have nu: "\<not> isspace (hd ?u)" by (rule hd_dropWhile)
  from strip_parts [of ?u] obtain a b where ab: "?u = a @ strip ?u @ b"
    and sp: "\<forall>c\<in>set a. isspace c"
    by blast
  have same: "strip ?u = strip s"
    by (simp add: strip_def)
  have "a = []"
  proof (rule ccontr)
    assume "a \<noteq> []"
    with ab have "hd ?u = hd a" by (metis hd_append2)
    moreover from \<open>a \<noteq> []\<close> sp have "isspace (hd a)" by simp
    ultimately show False using nu by simp
  qed
  with ab same have "?u = strip s @ b" by simp
  with assms have "hd ?u = hd (strip s)" by (metis hd_append2)
  with nu show "\<not> isspace (hd (strip s))" by simp
qed

lemma alnum_not_space: "isalnum c \<Longrightarrow> \<not> isspace c"
  by (auto simp add: isalnum_def isspace_def Let_def)

lemma allowed_space:
  assumes "allowed_char c"
  shows "isspace c \<longleftrightarrow> c = CHR '' ''"
proof (cases "isalnum c")
  case True
  then have "\<not> isspace c" by (rule alnum_not_space)
  moreover have "\<not> isalnum (CHR '' '')" by (simp add: isalnum_def)
  with True have "c \<noteq> CHR '' ''" by auto
  ultimately show ?thesis by simp
next
  case False
  with assms have "c = CHR '' '' \<or> c = CHR ''-'' \<or> c = CHR ''_''"
    by (simp add: allowed_char_def)
  then show ?thesis
    by (auto simp add: isspace_def)
qed

lemma set_strip: "set (strip s) \<subseteq> set s"
proof -
  from strip_parts [of s] obtain a b where "s = a @ strip s @ b" by blast
  then have "set s = set a \<union> set (strip s) \<union> set b" by (metis set_append Un_assoc)
  then show ?thesis by blast
qed

lemma untitled_allowed: "\<forall>c\<in>set ''untitled''. allowed_char c"
  by (simp add: allowed_char_def isalnum_def)

lemma safe_title_eq:
  "safe_title t =
     (if strip (filter allowed_char t) = [] then ''untitled''
      else take 50 (strip (filter allowed_char t)))"
  by (cases "strip (filter allowed_char t)") (simp_all add: safe_title_def)

lemma safe_title_allowed: "c \<in> set (safe_title t) \<Longrightarrow> allowed_char c"
proof -
  assume c: "c \<in> set (safe_title t)"
  let ?s = "strip (filter allowed_char t)"
  show ?thesis
  proof (cases "?s = []")
    case True
    with c have "c \<in> set ''untitled''" by (simp add: safe_title_eq)
    with untitled_allowed show ?thesis by blast
  next
    case False
    with c have "c \<in> set (take 50 ?s)" by (simp add: safe_title_eq)
    then have "c \<in> set ?s" by (rule in_set_takeD)
    with set_strip have "c \<in> set (filter allowed_char t)" by blast
    then show ?thesis by simp
  qed
qed

lemma safe_title_length: "length (safe_title t) \<le> 50"
  by (simp add: safe_title_eq)

lemma sanitized_parts:
  "\<exists>a b. filter allowed_char t = a @ strip (filter allowed_char t) @ b
     \<and> set a \<subseteq> {CHR '' ''} \<and> set b \<subseteq> {CHR '' ''}"
proof -
  let ?f = "filter allowed_char t"
  from strip_parts [of ?f] obtain a b where ab: "?f = a @ strip ?f @ b"
    and sa: "\<forall>c\<in>set a. isspace c" and sb: "\<forall>c\<in>set b. isspace c"
    by blast
  have al: "\<forall>c\<in>set ?f. allowed_char c" by simp
  from ab have "set ?f = set a \<union> set (strip ?f) \<union> set b"
    by (metis set_append Un_assoc)
  then have sub: "set a \<union> set b \<subseteq> set ?f"
    by blast
  have "c = CHR '' ''" if "c \<in> set a \<union> set b" for c
  proof -
    from that sub al have "allowed_char c" by blast
    moreover from that sa sb have "isspace c" by blast
    ultimately show ?thesis by (simp add: allowed_space)
  qed
  then have "set a \<subseteq> {CHR '' ''}" and "set b \<subseteq> {CHR '' ''}"
    by blast+
  with ab show ?thesis by blast
qed

lemma sanitized_ends:
  assumes "strip (filter allowed_char t) \<noteq> []"
  shows "hd (strip (filter allowed_char t)) \<noteq> CHR '' ''"
    and "last (strip (filter allowed_char t)) \<noteq> CHR '' ''"
proof -
  have sp: "isspace (CHR '' '')" by (simp add: isspace_def)
  from strip_ends [OF assms] sp
  show "hd (strip (filter allowed_char t)) \<noteq> CHR '' ''"
    and "last (strip (filter allowed_char t)) \<noteq> CHR '' ''"
    by auto
qed

text \<open>
  C8. For every title: keep the characters that are alphanumeric or one of space, hyphen
  and underscore, in their order; what \<open>strip\<close> leaves is that string without the spaces
  at its two ends, so it neither starts nor ends with a space. The sanitized title is
  the first 50 characters of it, and the literal \<open>untitled\<close> when nothing is left. Hence
  each of its characters is an allowed one and it has at most 50 of them. The file
  written for a page, under the name made of the sanitized title, an underscore, the
  first eight characters of the identifier and \<open>.md\<close>, is the header block (identifier,
  title, edit time, URL, between two \<open>---\<close> lines), an empty line, and the content.
\<close>

theorem page_file_name_and_text:
  "(\<exists>a b. filter (\<lambda>c. isalnum c \<or> c \<in> set '' -_'') t =
            a @ strip (filter (\<lambda>c. isalnum c \<or> c \<in> set '' -_'') t) @ b
          \<and> set a \<subseteq> {CHR '' ''} \<and> set b \<subseteq> {CHR '' ''})
   \<and> (strip (filter (\<lambda>c. isalnum c \<or> c \<in> set '' -_'') t) \<noteq> [] \<longrightarrow>
         hd (strip (filter (\<lambda>c. isalnum c \<or> c \<in> set '' -_'') t)) \<noteq> CHR '' ''
         \<and> last (strip (filter (\<lambda>c. isalnum c \<or> c \<in> set '' -_'') t)) \<noteq> CHR '' ''
         \<and> safe_title t = take 50 (strip (filter (\<lambda>c. isalnum c \<or> c \<in> set '' -_'') t)))
   \<and> (strip (filter (\<lambda>c. isalnum c \<or> c \<in> set '' -_'') t) = [] \<longrightarrow> safe_title t = ''untitled'')
   \<and> (\<forall>c\<in>set (safe_title t). isalnum c \<or> c = CHR '' '' \<or> c = CHR ''-'' \<or> c = CHR ''_'')
   \<and> length (safe_title t) \<le> 50
   \<and> files (write_page_file ev page content st)
        (safe_title (page_title page) @ ''_'' @ take 8 (page_id page) @ ''.md'') =
      Some (''---'' @ newline @
            ''notion_id: '' @ page_id page @ newline @
            ''title: '' @ page_title page @ newline @
            ''last_edited: '' @ isoformat ev (page_last_edited page) @ newline @
            ''url: '' @ page_url page @ newline @
            ''---'' @ newline @
            newline @
            content)"
proof -
  have eq: "(\<lambda>c. isalnum c \<or> c \<in> set '' -_'') = allowed_char"
    by (rule ext) (simp add: allowed_char_def)
  have p: "\<exists>a b. filter allowed_char t = a @ strip (filter allowed_char t) @ b
      \<and> set a \<subseteq> {CHR '' ''} \<and> set b \<subseteq> {CHR '' ''}"
    by (rule sanitized_parts)
  have n: "strip (filter allowed_char t) \<noteq> [] \<longrightarrow>
      hd (strip (filter allowed_char t)) \<noteq> CHR '' ''
      \<and> last (strip (filter allowed_char t)) \<noteq> CHR '' ''
      \<and> safe_title t = take 50 (strip (filter allowed_char t))"
    using sanitized_ends [of t] by (simp add: safe_title_eq)
  have e: "strip (filter allowed_char t) = [] \<longrightarrow> safe_title t = ''untitled''"
    by (simp add: safe_title_eq)
  have a: "\<forall>c\<in>set (safe_title t). isalnum c \<or> c = CHR '' '' \<or> c = CHR ''-'' \<or> c = CHR ''_''"
    using safe_title_allowed [of _ t] by (auto simp add: allowed_char_def)
  have c: "files (write_page_file ev page content st)
        (safe_title (page_title page) @ ''_'' @ take 8 (page_id page) @ ''.md'') =
      Some (''---'' @ newline @
            ''notion_id: '' @ page_id page @ newline @
            ''title: '' @ page_title page @ newline @
            ''last_edited: '' @ isoformat ev (page_last_edited page) @ newline @
            ''url: '' @ page_url page @ newline @
            ''---'' @ newline @
            newline @
            content)"
    by (simp add: write_page_file_def page_filename_def frontmatter_def)
  from p n e a safe_title_length c show ?thesis
    unfolding eq by (intro conjI)
qed

theorem page_file_name_and_text_witness:
  "strip (filter (\<lambda>c. isalnum c \<or> c \<in> set '' -_'') ''  Plans: Q3/Q4 '') = ''Plans Q3Q4''
   \<and> safe_title ''  Plans: Q3/Q4 '' = ''Plans Q3Q4''
   \<and> strip (filter (\<lambda>c. isalnum c \<or> c \<in> set '' -_'')
        ''A title of sixty characters, cut to fifty by the truncation.'') =
      ''A title of sixty characters cut to fifty by the truncation''
   \<and> safe_title ''A title of sixty characters, cut to fifty by the truncation.'' =
      ''A title of sixty characters cut to fifty by the tr''
   \<and> strip (filter (\<lambda>c. isalnum c \<or> c \<in> set '' -_'') '' ?! '') = []
   \<and> safe_title '' ?! '' = ''untitled''
   \<and> files (write_page_file ev_ex page_b ''hello'' st_empty)
        (safe_title (page_title page_b) @ ''_'' @ take 8 (page_id page_b) @ ''.md'') =
      Some (''---'' @ newline @
            ''notion_id: '' @ page_id page_b @ newline @
            ''title: '' @ page_title page_b @ newline @
            ''last_edited: '' @ isoformat ev_ex (page_last_edited page_b) @ newline @
            ''url: '' @ page_url page_b @ newline @
            ''---'' @ newline @
            newline @
            ''hello'')"
proof -
  note plans = page_file_name_and_text [of "''  Plans: Q3/Q4 ''" ev_ex page_b "''hello''" st_empty]
  note sixty = page_file_name_and_text
    [of "''A title of sixty characters, cut to fifty by the truncation.''" ev_ex page_b "''hello''" st_empty]
  note marks = page_file_name_and_text [of "'' ?! ''" ev_ex page_b "''hello''" st_empty]
  have s1: "strip (filter (\<lambda>c. isalnum c \<or> c \<in> set '' -_'') ''  Plans: Q3/Q4 '') = ''Plans Q3Q4''"
    by (simp add: strip_def isalnum_def isspace_def)
  have s2: "strip (filter (\<lambda>c. isalnum c \<or> c \<in> set '' -_'')
        ''A title of sixty characters, cut to fifty by the truncation.'') =
      ''A title of sixty characters cut to fifty by the truncation''"
    by (simp add: strip_def isalnum_def isspace_def)
  have s3: "strip (filter (\<lambda>c. isalnum c \<or> c \<in> set '' -_'') '' ?! '') = []"
    by (simp add: strip_def isalnum_def isspace_def)
  from plans [THEN conjunct2, THEN conjunct1]
  have t1: "safe_title ''  Plans: Q3/Q4 '' = ''Plans Q3Q4''"
    unfolding s1 by simp
  from sixty [THEN conjunct2, THEN conjunct1]
  have t2: "safe_title ''A title of sixty characters, cut to fifty by the truncation.'' =
      ''A title of sixty characters cut to fifty by the tr''"
    unfolding s2 by simp
  from marks [THEN conjunct2, THEN conjunct2, THEN conjunct1] s3
  have t3: "safe_title '' ?! '' = ''untitled''"
    by (rule mp)
  note f = plans [THEN conjunct2, THEN conjunct2, THEN conjunct2, THEN conjunct2, THEN conjunct2]
  from s1 t1 s2 t2 s3 t3 f show ?thesis
    by (intro conjI)
qed

text \<open>
  C5, at two pages with the same title whose identifiers differ only after the eighth
  character: both get the file name \<open>Notes_1a2b3c4d.md\<close>.
\<close>

theorem filename_collision:
  "page_title page_a = page_title page_c \<and> page_id page_a \<noteq> page_id page_c
   \<and> page_filename page_a = ''Notes_1a2b3c4d.md''
   \<and> page_filename page_c = ''Notes_1a2b3c4d.md''"
  by (simp add: page_a_def page_c_def page_filename_def safe_title_def strip_def
        allowed_char_def isalnum_def isspace_def)

end
